theory Spec2Isabelle
  imports Complex_Main "HOL-Library.Word"
begin

section \<open>LouvainMapEquation: configuration and work partitioning\<close>

text \<open>
  The development follows \<^verbatim>\<open>include/networkit/community/LouvainMapEquation.hpp\<close>.
  The header defines the public constructor, the conversion of the strategy name, the
  \<^verbatim>\<open>Move\<close> record and the two chunking helpers; these are embedded as they are written.
  The integer type \<^verbatim>\<open>count\<close> is declared outside the header: it is an unsigned machine
  integer, modelled as a word whose width is a parameter.

  The member functions \<^verbatim>\<open>run\<close>, \<^verbatim>\<open>localMoving\<close>, \<^verbatim>\<open>synchronousLocalMoving\<close>,
  \<^verbatim>\<open>tryLocalMove\<close>, \<^verbatim>\<open>performMove\<close>, \<^verbatim>\<open>aggregateAndApplyCutAndVolumeUpdates\<close>,
  \<^verbatim>\<open>calculateInitialClusterCutAndVolume\<close> and \<^verbatim>\<open>fitnessChange\<close> are only declared in
  the header. Their models in the second part are written from the specification and say so.
  There, node and cluster ids are natural numbers. A \<^verbatim>\<open>double\<close> is written as a real
  number, which leaves out the rounding, the infinities and NaN of binary64. For that
  reason no claim below is decided by the values of the cut and volume statistics: the
  theorems of the second part are about the partition and the number of passes, they hold
  for every fitness function and use no property of the arithmetic. The example graph has
  small integer weights, on which binary64 arithmetic is exact.
\<close>

subsection \<open>Strategy names\<close>

text \<open>\<^verbatim>\<open>enum class ParallelizationType : uint8_t { None, RelaxMap, Synchronous }\<close>;
  the first constructor is named \<open>NoneT\<close> because \<open>None\<close> is the constructor of \<open>option\<close>.\<close>

datatype ParallelizationType = NoneT | RelaxMap | Synchronous

text \<open>
  \<^verbatim>\<open>std::runtime_error\<close>, constructed from a \<^verbatim>\<open>std::string\<close>. The exception shows its
  message only through \<^verbatim>\<open>what()\<close>, which returns a C string: the bytes up to the first NUL.
\<close>

datatype error = runtime_error string

definition what :: "error \<Rightarrow> string" where
  "what e = (case e of runtime_error msg \<Rightarrow> takeWhile (\<lambda>c. c \<noteq> CHR 0x00) msg)"

definition convert_string_to_parallelization_type :: "string \<Rightarrow> error + ParallelizationType" where
  "convert_string_to_parallelization_type para_strat =
     (if para_strat = ''none'' then Inr NoneT
      else if para_strat = ''relaxmap'' then Inr RelaxMap
      else if para_strat = ''synchronous'' then Inr Synchronous
      else Inl (runtime_error (''Invalid parallelization type for map equation Louvain: ''
                               @ para_strat)))"

subsection \<open>Construction\<close>

text \<open>
  The object as the private constructor receives it: the graph and the three settings.
  The public constructor has default arguments, written here as optional arguments; it
  converts the strategy name first and delegates, so an exception of the conversion leaves
  no object behind.
\<close>

record ('g, 'c) LouvainMapEquation_obj =
  G :: 'g
  hierarchical :: bool
  maxIterations :: 'c
  parallelizationType :: ParallelizationType

definition LouvainMapEquation ::
  "'g \<Rightarrow> bool option \<Rightarrow> 'a::len word option \<Rightarrow> string option
     \<Rightarrow> error + ('g, 'a word) LouvainMapEquation_obj" where
  "LouvainMapEquation graph hier maxIter strategy =
     (let h = (case hier of None \<Rightarrow> False | Some b \<Rightarrow> b);
          m = (case maxIter of None \<Rightarrow> 32 | Some c \<Rightarrow> c);
          s = (case strategy of None \<Rightarrow> ''relaxmap'' | Some t \<Rightarrow> t)
      in case convert_string_to_parallelization_type s of
           Inl e \<Rightarrow> Inl e
         | Inr t \<Rightarrow> Inr \<lparr>G = graph, hierarchical = h, maxIterations = m,
                         parallelizationType = t\<rparr>)"

subsection \<open>Chunks of the node range\<close>

text \<open>
  \<^verbatim>\<open>count idiv_ceil(count a, count b) const { return (a + b - 1) / b; }\<close>
  Unsigned arithmetic wraps around; dividing by zero is undefined in the source and is
  \<open>None\<close> here.
\<close>

definition idiv_ceil :: "'a::len word \<Rightarrow> 'a word \<Rightarrow> 'a word option" where
  "idiv_ceil a b = (if b = 0 then None else Some ((a + b - 1) div b))"

text \<open>\<^verbatim>\<open>return std::make_pair(i * chunk_size, std::min(n, (i + 1) * chunk_size));\<close>\<close>

definition chunk_bounds :: "'a::len word \<Rightarrow> 'a word \<Rightarrow> 'a word \<Rightarrow> 'a word \<times> 'a word" where
  "chunk_bounds i n chunk_size = (i * chunk_size, min n ((i + 1) * chunk_size))"

text \<open>The nodes of chunk \<open>i\<close>: the half-open interval between the two bounds.\<close>

definition chunk :: "'a::len word \<Rightarrow> 'a word \<Rightarrow> 'a word \<Rightarrow> 'a word set" where
  "chunk i n b = {v. fst (chunk_bounds i n b) \<le> v \<and> v < snd (chunk_bounds i n b)}"

text \<open>
  The property of the chunks \<open>0 .. idiv_ceil n b - 1\<close>: each is the interval
  \<open>[i * b, min n ((i + 1) * b))\<close> of the integers (no product wraps), two different chunks
  share no node, and together they are the node range \<open>[0, n)\<close>.
\<close>

definition chunks_partition :: "'a::len word \<Rightarrow> 'a word \<Rightarrow> bool" where
  "chunks_partition n b =
     (case idiv_ceil n b of
        None \<Rightarrow> False
      | Some k \<Rightarrow>
          (\<forall>i<k. unat (fst (chunk_bounds i n b)) = unat i * unat b
                \<and> unat (snd (chunk_bounds i n b)) = min (unat n) ((unat i + 1) * unat b))
        \<and> (\<forall>i<k. \<forall>j<k. i \<noteq> j \<longrightarrow> chunk i n b \<inter> chunk j n b = {})
        \<and> (\<Union>i\<in>{i. i < k}. chunk i n b) = {v. v < n})"

section \<open>The local-moving core, modelled from the specification\<close>

subsection \<open>Data\<close>

text \<open>
  Modelled from the spec: the Graph collaborator (sections 3 and 6), which the header only
  names. Nodes are the ids \<open>0 ..< numberOfNodes\<close>; the graph answers the weighted degree
  and the self-loop weight of a node and iterates its neighbours with the edge weights.
\<close>

record Graph =
  numberOfNodes :: nat
  weightedDegree :: "nat \<Rightarrow> real"
  selfLoopWeight :: "nat \<Rightarrow> real"
  neighbors :: "nat \<Rightarrow> (nat \<times> real) list"

text \<open>The \<^verbatim>\<open>Move\<close> struct of the header, with its six fields.\<close>

record Move =
  movedNode :: nat
  volume :: real
  originCluster :: nat
  targetCluster :: nat
  cutUpdateToOriginCluster :: real
  cutUpdateToTargetCluster :: real

text \<open>
  The mutable members of the header: \<^verbatim>\<open>clusterCut\<close>, \<^verbatim>\<open>clusterVolume\<close>, \<^verbatim>\<open>totalCut\<close>,
  \<^verbatim>\<open>totalVolume\<close>, and the partition \<open>result\<close> (node to cluster id) of the base class.
\<close>

record state =
  result :: "nat list"
  clusterCut :: "real list"
  clusterVolume :: "real list"
  totalCut :: real
  totalVolume :: real

subsection \<open>Cluster Statistics Store\<close>

text \<open>
  Modelled from the spec: the body of \<^verbatim>\<open>calculateInitialClusterCutAndVolume\<close> is missing.
  Section 4.1: every node is a singleton cluster, \<open>ClusterCut[u]\<close> is the weighted degree of
  \<open>u\<close>, \<open>ClusterVolume[u]\<close> is the weighted degree plus twice the self-loop weight, and the
  totals are summed from the graph in one pass over the nodes.
\<close>

definition calculateInitialClusterCutAndVolume :: "Graph \<Rightarrow> state" where
  "calculateInitialClusterCutAndVolume g =
     (let nodes = [0 ..< numberOfNodes g]
      in \<lparr>result = nodes,
          clusterCut = map (weightedDegree g) nodes,
          clusterVolume = map (\<lambda>u. weightedDegree g u + 2 * selfLoopWeight g u) nodes,
          totalCut = (\<Sum>u\<leftarrow>nodes. weightedDegree g u),
          totalVolume = (\<Sum>u\<leftarrow>nodes. weightedDegree g u + 2 * selfLoopWeight g u)\<rparr>)"

text \<open>
  Modelled from the spec: section 4.1's \<open>applyMove\<close>, the statistics update that
  \<^verbatim>\<open>performMove\<close> (body missing) commits. It adds the move's two deltas to the cut of the
  origin and of the target cluster and transfers the node's volume from the origin to the
  target cluster. The total cut is the cached sum of the cluster cuts and follows them; the
  total volume is not written.
\<close>

definition applyMove :: "Move \<Rightarrow> state \<Rightarrow> state" where
  "applyMove m st =
     (let cc1 = (clusterCut st)[originCluster m :=
                   clusterCut st ! originCluster m + cutUpdateToOriginCluster m];
          cc2 = cc1[targetCluster m := cc1 ! targetCluster m + cutUpdateToTargetCluster m];
          cv1 = (clusterVolume st)[originCluster m :=
                   clusterVolume st ! originCluster m - volume m];
          cv2 = cv1[targetCluster m := cv1 ! targetCluster m + volume m]
      in st\<lparr>clusterCut := cc2, clusterVolume := cv2,
             totalCut := totalCut st + cutUpdateToOriginCluster m + cutUpdateToTargetCluster m\<rparr>)"

text \<open>
  Modelled from the spec: the body of \<^verbatim>\<open>performMove\<close> is missing. Section 4.4: committing
  a move writes the node's new cluster into the partition and applies the move to the
  statistics at once.
\<close>

definition performMove :: "Move \<Rightarrow> state \<Rightarrow> state" where
  "performMove m st = applyMove m (st\<lparr>result := (result st)[movedNode m := targetCluster m]\<rparr>)"

subsection \<open>Move Aggregator\<close>

text \<open>
  Modelled from the spec: the body of \<^verbatim>\<open>aggregateAndApplyCutAndVolumeUpdates\<close> is missing.
  Section 4.5: the moves of one stale-synchronous pass are grouped by cluster id, the cut
  and volume deltas of each cluster are summed, and the sums are applied to the statistics
  in a single pass.
\<close>

definition cutDelta :: "Move list \<Rightarrow> nat \<Rightarrow> real" where
  "cutDelta moves c =
     (\<Sum>m\<leftarrow>moves. (if originCluster m = c then cutUpdateToOriginCluster m else 0)
                + (if targetCluster m = c then cutUpdateToTargetCluster m else 0))"

definition volumeDelta :: "Move list \<Rightarrow> nat \<Rightarrow> real" where
  "volumeDelta moves c =
     (\<Sum>m\<leftarrow>moves. (if targetCluster m = c then volume m else 0)
                - (if originCluster m = c then volume m else 0))"

definition aggregateAndApplyCutAndVolumeUpdates :: "Move list \<Rightarrow> state \<Rightarrow> state" where
  "aggregateAndApplyCutAndVolumeUpdates moves st =
     st\<lparr>clusterCut :=
          map (\<lambda>c. clusterCut st ! c + cutDelta moves c) [0 ..< length (clusterCut st)],
        clusterVolume :=
          map (\<lambda>c. clusterVolume st ! c + volumeDelta moves c) [0 ..< length (clusterVolume st)],
        totalCut := totalCut st
          + (\<Sum>m\<leftarrow>moves. cutUpdateToOriginCluster m + cutUpdateToTargetCluster m)\<rparr>"

text \<open>
  Modelled from the spec: section 4.4 on what a strategy does to the shared state. The
  sequential and the lock-based strategy commit one move at a time (the locks make each
  commit atomic); the stale-synchronous strategy writes the new clusters of a whole pass
  and aggregates its moves.
\<close>

datatype commit = Single Move | Batch "Move list"

fun applyCommit :: "commit \<Rightarrow> state \<Rightarrow> state" where
  "applyCommit (Single m) st = performMove m st"
| "applyCommit (Batch ms) st =
     aggregateAndApplyCutAndVolumeUpdates ms
       (st\<lparr>result := fold (\<lambda>m zeta. zeta[movedNode m := targetCluster m]) ms (result st)\<rparr>)"

subsection \<open>Neighbor-Weight Accumulator and Fitness Evaluator\<close>

text \<open>
  Modelled from the spec: the sparse vector \<^verbatim>\<open>SparseVector<double>\<close> is declared
  elsewhere. Section 4.2: the neighbours of \<open>u\<close> are iterated once and the edge weight is
  accumulated per cluster of the neighbour, the own cluster of \<open>u\<close> included and self-loops
  excluded. The sparse map is an association list in order of first insertion.
\<close>

definition addClusterWeight :: "nat \<Rightarrow> real \<Rightarrow> (nat \<times> real) list \<Rightarrow> (nat \<times> real) list" where
  "addClusterWeight c w acc =
     (case map_of acc c of
        None \<Rightarrow> acc @ [(c, w)]
      | Some x \<Rightarrow> map (\<lambda>(k, y). if k = c then (k, y + w) else (k, y)) acc)"

definition neighborClusterWeights :: "Graph \<Rightarrow> nat list \<Rightarrow> nat \<Rightarrow> (nat \<times> real) list" where
  "neighborClusterWeights g zeta u =
     fold (\<lambda>(v, w) acc. if v = u then acc else addClusterWeight (zeta ! v) w acc)
          (neighbors g u) []"

text \<open>
  The body of \<^verbatim>\<open>fitnessChange\<close> is missing and the specification gives no formula for it,
  so the evaluator is a parameter of everything below. It takes the statistics it reads
  and the arguments of the header's declaration: node, degree, loop weight, current
  cluster, target cluster, weight to target, weight to current, total cut. A lower value
  is a better move.
\<close>

type_synonym fitness =
  "state \<Rightarrow> nat \<Rightarrow> real \<Rightarrow> real \<Rightarrow> nat \<Rightarrow> nat \<Rightarrow> real \<Rightarrow> real \<Rightarrow> real \<Rightarrow> real"

subsection \<open>Local-Moving Engine\<close>

text \<open>
  Modelled from the spec: the body of \<^verbatim>\<open>tryLocalMove\<close> is missing. Sections 4.3 and 4.4:
  the node's neighbour-cluster weights are accumulated, the fitness of staying is the
  baseline, every touched neighbouring cluster is evaluated, the best one is selected (the
  lowest cluster id among equals), and the move is accepted only if it beats the baseline
  by more than the tolerance \<open>eps\<close>. The decision reads the partition and the statistics
  of \<open>view\<close>, which may be older than the state the move is committed to. The move carries
  the node's volume and the two cut deltas: the edges from the node into a cluster stop
  leaving it when the node joins, and start leaving it when the node goes.
\<close>

definition bestTarget ::
  "(nat \<Rightarrow> real \<Rightarrow> real) \<Rightarrow> (nat \<times> real) list \<Rightarrow> nat \<times> real \<times> real \<Rightarrow> nat \<times> real \<times> real" where
  "bestTarget f cands start =
     fold (\<lambda>(c, w) (bc, bw, bf).
             if f c w < bf \<or> (f c w = bf \<and> c < bc) then (c, w, f c w) else (bc, bw, bf))
          cands start"

definition tryLocalMove :: "fitness \<Rightarrow> real \<Rightarrow> Graph \<Rightarrow> state \<Rightarrow> nat \<Rightarrow> Move option" where
  "tryLocalMove fitnessChange eps g view u =
     (let current = result view ! u;
          degree = weightedDegree g u;
          loopWeight = selfLoopWeight g u;
          ws = neighborClusterWeights g (result view) u;
          weightToCurrent = (case map_of ws current of None \<Rightarrow> 0 | Some w \<Rightarrow> w);
          f = (\<lambda>c w. fitnessChange view u degree loopWeight current c w weightToCurrent
                        (totalCut view));
          base = f current weightToCurrent;
          (target, weightToTarget, best) =
            bestTarget f (filter (\<lambda>(c, w). c \<noteq> current) ws) (current, weightToCurrent, base)
      in if target \<noteq> current \<and> best + eps < base
         then Some \<lparr>movedNode = u, volume = degree + 2 * loopWeight,
                     originCluster = current, targetCluster = target,
                     cutUpdateToOriginCluster = 2 * weightToCurrent - degree,
                     cutUpdateToTargetCluster = degree - 2 * weightToTarget\<rparr>
         else None)"

text \<open>
  Modelled from the spec: the body of \<^verbatim>\<open>localMoving\<close> is missing. Section 4.4,
  sequential strategy: the nodes are visited in the order of the pass and every accepted
  move is committed at once. The function returns the number of moved nodes, as the
  header declares.
\<close>

definition localMoving :: "fitness \<Rightarrow> real \<Rightarrow> Graph \<Rightarrow> nat list \<Rightarrow> state \<Rightarrow> state \<times> nat" where
  "localMoving fitnessChange eps g nodes st =
     fold (\<lambda>u (s, moved).
             case tryLocalMove fitnessChange eps g s u of
               None \<Rightarrow> (s, moved)
             | Some m \<Rightarrow> (performMove m s, Suc moved))
          nodes (st, 0)"

text \<open>
  Modelled from the spec: section 4.4, lock-based strategy, which \<^verbatim>\<open>localMoving\<close> runs
  when the type is \<open>RelaxMap\<close>. The workers' steps are interleaved; the interleaving of one
  pass is a list of pairs: the node visited, and how many commits old the statistics and
  the partition are that its evaluation reads (the reads take no lock). The commit itself
  holds the locks of both clusters and acts on the newest state. The history holds the
  states of the pass, newest first.
\<close>

fun relaxMapMoves ::
  "fitness \<Rightarrow> real \<Rightarrow> Graph \<Rightarrow> (nat \<times> nat) list \<Rightarrow> state \<Rightarrow> state list \<Rightarrow> nat
     \<Rightarrow> state \<times> nat" where
  "relaxMapMoves fitnessChange eps g [] st older moved = (st, moved)"
| "relaxMapMoves fitnessChange eps g ((u, lag) # rest) st older moved =
     (let view = (st # older) ! min lag (length older)
      in case tryLocalMove fitnessChange eps g view u of
           None \<Rightarrow> relaxMapMoves fitnessChange eps g rest st older moved
         | Some m \<Rightarrow>
             relaxMapMoves fitnessChange eps g rest (performMove m st) (st # older) (Suc moved))"

definition relaxMapLocalMoving ::
  "fitness \<Rightarrow> real \<Rightarrow> Graph \<Rightarrow> (nat \<times> nat) list \<Rightarrow> state \<Rightarrow> state \<times> nat" where
  "relaxMapLocalMoving fitnessChange eps g interleaving st =
     relaxMapMoves fitnessChange eps g interleaving st [] 0"

text \<open>
  Modelled from the spec: the body of \<^verbatim>\<open>synchronousLocalMoving\<close> is missing. Section 4.4,
  stale-synchronous strategy: every worker evaluates the nodes of its chunk against the
  state at the start of the pass and appends the accepted moves to its own list; after the
  pass the new clusters are written and the concatenated lists are aggregated (4.5).
\<close>

definition workerMoves :: "fitness \<Rightarrow> real \<Rightarrow> Graph \<Rightarrow> state \<Rightarrow> nat list list \<Rightarrow> Move list list" where
  "workerMoves fitnessChange eps g frozen chunks =
     map (List.map_filter (tryLocalMove fitnessChange eps g frozen)) chunks"

definition synchronousLocalMoving ::
  "fitness \<Rightarrow> real \<Rightarrow> Graph \<Rightarrow> nat list list \<Rightarrow> state \<Rightarrow> state \<times> nat" where
  "synchronousLocalMoving fitnessChange eps g chunks st =
     (let moves = concat (workerMoves fitnessChange eps g st chunks)
      in (applyCommit (Batch moves) st, length moves))"

text \<open>
  Modelled from the spec: sections 4.4 and 5 on what a run does not decide itself, namely
  the visitation order of each pass (shuffled once per pass), the interleaving of the
  lock-based workers, and the chunks of the synchronous workers. Each is given per pass
  number, and the pass of a run is the one its parallelization type selects.
\<close>

record schedule =
  visitOrder :: "nat \<Rightarrow> nat list"
  interleaving :: "nat \<Rightarrow> (nat \<times> nat) list"
  workerChunks :: "nat \<Rightarrow> nat list list"

definition localMovingPass ::
  "ParallelizationType \<Rightarrow> fitness \<Rightarrow> real \<Rightarrow> Graph \<Rightarrow> schedule \<Rightarrow> nat \<Rightarrow> state \<Rightarrow> state \<times> nat" where
  "localMovingPass t fitnessChange eps g sched iteration st =
     (case t of
        NoneT \<Rightarrow> localMoving fitnessChange eps g (visitOrder sched iteration) st
      | RelaxMap \<Rightarrow> relaxMapLocalMoving fitnessChange eps g (interleaving sched iteration) st
      | Synchronous \<Rightarrow> synchronousLocalMoving fitnessChange eps g (workerChunks sched iteration) st)"

text \<open>
  Modelled from the spec: the loop of \<^verbatim>\<open>run\<close> is missing. Section 4.4, convergence: passes
  are repeated while the number of completed passes is below \<open>maxIterations\<close> and the last
  pass moved a node. The loop returns the state and the number of completed passes.
\<close>

function moveLoop :: "(nat \<Rightarrow> state \<Rightarrow> state \<times> nat) \<Rightarrow> nat \<Rightarrow> nat \<Rightarrow> state \<Rightarrow> state \<times> nat" where
  "moveLoop pass maxIter iteration st =
     (if iteration < maxIter
      then (case pass iteration st of
              (st', moved) \<Rightarrow>
                if 0 < moved then moveLoop pass maxIter (Suc iteration) st'
                else (st', Suc iteration))
      else (st, iteration))"
  by pat_completeness auto
termination
  by (relation "measure (\<lambda>(pass, maxIter, iteration, st). maxIter - iteration)") auto

text \<open>The state after \<open>k\<close> passes, and the number of nodes that pass \<open>j\<close> moves.\<close>

fun stateAfter :: "(nat \<Rightarrow> state \<Rightarrow> state \<times> nat) \<Rightarrow> state \<Rightarrow> nat \<Rightarrow> state" where
  "stateAfter pass st 0 = st"
| "stateAfter pass st (Suc k) = fst (pass k (stateAfter pass st k))"

definition movedIn :: "(nat \<Rightarrow> state \<Rightarrow> state \<times> nat) \<Rightarrow> state \<Rightarrow> nat \<Rightarrow> nat" where
  "movedIn pass st j = snd (pass j (stateAfter pass st j))"

text \<open>
  Modelled from the spec: the body of \<^verbatim>\<open>run\<close> is missing. Section 2, control flow:
  initialise the statistics, repeat local-moving passes, and in hierarchical mode coarsen
  and recurse. Section 4.6 ends the recursion at a level that did not reduce the number of
  clusters; the coarsening itself (\<^verbatim>\<open>runHierarchical\<close>) is a parameter that maps the
  converged state to the projected partition.
\<close>

definition run ::
  "fitness \<Rightarrow> real \<Rightarrow> schedule \<Rightarrow> (state \<Rightarrow> nat list)
     \<Rightarrow> (Graph, 'a::len word) LouvainMapEquation_obj \<Rightarrow> nat list" where
  "run fitnessChange eps sched runHierarchical obj =
     (let g = G obj;
          st0 = calculateInitialClusterCutAndVolume g;
          (st, passes) =
            moveLoop (localMovingPass (parallelizationType obj) fitnessChange eps g sched)
                     (unat (maxIterations obj)) 0 st0
      in if hierarchical obj \<and> card (set (result st)) < numberOfNodes g
         then runHierarchical st
         else result st)"

subsection \<open>Well-formed graphs and the cluster of a node\<close>

text \<open>
  Modelled from the spec: section 3 takes the graph to be undirected with node ids below
  the node count. Every neighbour is a node, and an edge is listed at both of its ends.
\<close>

definition undirected :: "Graph \<Rightarrow> bool" where
  "undirected g \<longleftrightarrow>
     (\<forall>v. \<forall>(w, x) \<in> set (neighbors g v). w < numberOfNodes g \<and> v \<in> fst ` set (neighbors g w))"

text \<open>Node \<open>u\<close> is alone in the cluster named after it.\<close>

definition ownSingleton :: "Graph \<Rightarrow> nat \<Rightarrow> nat list \<Rightarrow> bool" where
  "ownSingleton g u zeta \<longleftrightarrow>
     length zeta = numberOfNodes g \<and> (\<forall>x<numberOfNodes g. zeta ! x = u \<longleftrightarrow> x = u)"

subsection \<open>A small graph\<close>

text \<open>
  Three nodes: an edge of weight 1 between nodes 0 and 1, a self-loop of weight 5 at node
  0, and node 2 without any edge. The fitness used with it prefers the cluster with the
  heaviest connection to the node.
\<close>

definition exampleGraph :: Graph where
  "exampleGraph =
     \<lparr>numberOfNodes = 3,
      weightedDegree = (\<lambda>u. if u = 2 then 0 else 1),
      selfLoopWeight = (\<lambda>u. if u = 0 then 5 else 0),
      neighbors = (\<lambda>u. if u = 0 then [(1, 1), (0, 5)] else if u = 1 then [(0, 1)] else [])\<rparr>"

definition exampleFitness :: fitness where
  "exampleFitness view u degree loopWeight current target weightToTarget weightToCurrent tc =
     - weightToTarget"

definition exampleSchedule :: schedule where
  "exampleSchedule =
     \<lparr>visitOrder = (\<lambda>i. [0, 1, 2]),
      interleaving = (\<lambda>i. [(0, 0), (2, 1), (1, 1)]),
      workerChunks = (\<lambda>i. [[0, 1], [2]])\<rparr>"

section \<open>Theorems: construction\<close>

text \<open>
  Claim C3, as the code has it. The strategy names \<open>none\<close>, \<open>relaxmap\<close> and
  \<open>synchronous\<close> select the parallelization type of the same name. Every other string
  makes the constructor fail with a \<open>runtime_error\<close>: no object is built, so nothing can
  run on it, and no default takes the place of the rejected value. The message read
  through \<open>what\<close> is the fixed prefix followed by the rejected string up to its first
  NUL, so it names the rejected value whenever that contains no NUL.
\<close>

theorem constructor_checks_strategy:
  fixes m :: "'a::len word option"
  shows "(s = ''none'' \<longrightarrow>
            convert_string_to_parallelization_type s = Inr NoneT
          \<and> map_sum what parallelizationType (LouvainMapEquation g h m (Some s)) = Inr NoneT)
       \<and> (s = ''relaxmap'' \<longrightarrow>
            convert_string_to_parallelization_type s = Inr RelaxMap
          \<and> map_sum what parallelizationType (LouvainMapEquation g h m (Some s)) = Inr RelaxMap)
       \<and> (s = ''synchronous'' \<longrightarrow>
            convert_string_to_parallelization_type s = Inr Synchronous
          \<and> map_sum what parallelizationType (LouvainMapEquation g h m (Some s))
              = Inr Synchronous)
       \<and> (s \<notin> {''none'', ''relaxmap'', ''synchronous''} \<longrightarrow>
            map_sum what parallelizationType (LouvainMapEquation g h m (Some s))
              = Inl (''Invalid parallelization type for map equation Louvain: ''
                     @ takeWhile (\<lambda>c. c \<noteq> CHR 0x00) s))
       \<and> (s \<notin> {''none'', ''relaxmap'', ''synchronous''} \<and> CHR 0x00 \<notin> set s \<longrightarrow>
            map_sum what parallelizationType (LouvainMapEquation g h m (Some s))
              = Inl (''Invalid parallelization type for map equation Louvain: '' @ s))"
proof -
  have msg: "what (runtime_error (''Invalid parallelization type for map equation Louvain: '' @ s))
      = ''Invalid parallelization type for map equation Louvain: ''
        @ takeWhile (\<lambda>c. c \<noteq> CHR 0x00) s"
    by (simp add: what_def takeWhile_append)
  have whole: "CHR 0x00 \<notin> set s \<Longrightarrow> takeWhile (\<lambda>c. c \<noteq> CHR 0x00) s = s"
    by (rule takeWhile_eq_all_conv [THEN iffD2]) auto
  show ?thesis
    using msg whole
    by (auto simp: LouvainMapEquation_def convert_string_to_parallelization_type_def)
qed

theorem constructor_checks_strategy_witness:
  "map_sum what parallelizationType
     (LouvainMapEquation () None (None :: 64 word option) (Some ''none'')) = Inr NoneT
   \<and> map_sum what parallelizationType
     (LouvainMapEquation () None (None :: 64 word option) (Some ''relaxmap'')) = Inr RelaxMap
   \<and> map_sum what parallelizationType
     (LouvainMapEquation () None (None :: 64 word option) (Some ''synchronous'')) = Inr Synchronous
   \<and> ''Synchronous'' \<notin> {''none'', ''relaxmap'', ''synchronous''}
   \<and> CHR 0x00 \<notin> set ''Synchronous''
   \<and> map_sum what parallelizationType
        (LouvainMapEquation () None (None :: 64 word option) (Some ''Synchronous''))
       = Inl ''Invalid parallelization type for map equation Louvain: Synchronous''"
  using constructor_checks_strategy [of "''none''" "()" None "None :: 64 word option"]
    constructor_checks_strategy [of "''relaxmap''" "()" None "None :: 64 word option"]
    constructor_checks_strategy [of "''synchronous''" "()" None "None :: 64 word option"]
    constructor_checks_strategy [of "''Synchronous''" "()" None "None :: 64 word option"]
  by simp

text \<open>
  With a NUL inside the string the message does not name the rejected value: the six
  bytes \<open>none\<close>, NUL, \<open>x\<close> are none of the three names, and the message of the exception
  reads as if the valid name \<open>none\<close> had been rejected.
\<close>

theorem constructor_message_nul_counterexample:
  "''none'' @ [CHR 0x00, CHR ''x''] \<notin> {''none'', ''relaxmap'', ''synchronous''}
   \<and> map_sum what parallelizationType
        (LouvainMapEquation () None (None :: 64 word option)
           (Some (''none'' @ [CHR 0x00, CHR ''x''])))
       = Inl ''Invalid parallelization type for map equation Louvain: none''
   \<and> map_sum what parallelizationType
        (LouvainMapEquation () None (None :: 64 word option)
           (Some (''none'' @ [CHR 0x00, CHR ''x''])))
       \<noteq> Inl (''Invalid parallelization type for map equation Louvain: ''
              @ (''none'' @ [CHR 0x00, CHR ''x'']))"
  by (simp add: LouvainMapEquation_def convert_string_to_parallelization_type_def what_def)

text \<open>
  Claim C9. Constructing with a graph only gives \<open>hierarchical = false\<close>,
  \<open>maxIterations = 32\<close> and the strategy \<open>relaxmap\<close>, that is the lock-based type
  \<open>RelaxMap\<close> and not \<open>Synchronous\<close>.
\<close>

theorem constructor_defaults:
  "LouvainMapEquation g None None None
     = Inr \<lparr>G = g, hierarchical = False, maxIterations = 32,
            parallelizationType = RelaxMap\<rparr>
   \<and> LouvainMapEquation g None None None
     = LouvainMapEquation g (Some False) (Some 32) (Some ''relaxmap'')"
  by (simp add: LouvainMapEquation_def convert_string_to_parallelization_type_def)

section \<open>Theorems: chunks\<close>

subsection \<open>Ceiling division and blocks over the naturals\<close>

lemma ceil_lt_iff:
  fixes N B I :: nat
  assumes "0 < B"
  shows "I < (N + B - 1) div B \<longleftrightarrow> I * B < N"
proof -
  have "I < (N + B - 1) div B \<longleftrightarrow> I * B + B \<le> N + B - 1"
    using assms by (metis Suc_leI less_eq_div_iff_mult_less_eq mult_Suc not_less add.commute not_less_eq_eq)
  also have "\<dots> \<longleftrightarrow> I * B < N" using assms by linarith
  finally show ?thesis .
qed

lemma in_block_iff:
  fixes v B I :: nat
  assumes "0 < B"
  shows "I * B \<le> v \<and> v < (I + 1) * B \<longleftrightarrow> I = v div B"
proof
  assume "I * B \<le> v \<and> v < (I + 1) * B"
  then have "v div B = I"
    by (intro div_nat_eqI) (simp_all add: mult.commute)
  then show "I = v div B" by simp
next
  assume "I = v div B"
  moreover have "v div B * B \<le> v" by simp
  moreover have "v < (v div B + 1) * B"
    using dividend_less_div_times [OF assms, of v] by (simp add: add.commute)
  ultimately show "I * B \<le> v \<and> v < (I + 1) * B" by simp
qed

lemma unat_sum_pred:
  fixes n b :: "'a::len word"
  assumes "b \<noteq> 0" "unat n + unat b - 1 < 2 ^ LENGTH('a)"
  shows "unat (n + b - 1) = unat n + unat b - 1"
proof -
  have pos: "1 \<le> unat n + unat b" using assms(1) by (simp add: unat_gt_0 Suc_leI)
  have "n + b - 1 = of_nat (unat n + unat b - 1)"
    using pos by (simp add: of_nat_diff)
  then have "unat (n + b - 1) = unat (of_nat (unat n + unat b - 1) :: 'a word)" by simp
  also have "\<dots> = unat n + unat b - 1"
    using assms(2) by (simp add: unat_of_nat)
  finally show ?thesis .
qed

lemma unat_idiv_ceil:
  fixes n b :: "'a::len word"
  assumes "b \<noteq> 0" "unat n + unat b - 1 < 2 ^ LENGTH('a)"
  shows "\<exists>k. idiv_ceil n b = Some k \<and> unat k = (unat n + unat b - 1) div unat b"
  using assms unat_sum_pred [OF assms]
  by (simp add: idiv_ceil_def unat_div)

lemma unat_chunk_mult:
  fixes i b :: "'a::len word"
  assumes "unat i * unat b < 2 ^ LENGTH('a)"
  shows "unat (i * b) = unat i * unat b"
  using assms by (simp add: unat_mult_lem)

lemma unat_chunk_succ_mult:
  fixes i b :: "'a::len word"
  assumes "(unat i + 1) * unat b < 2 ^ LENGTH('a)" "b \<noteq> 0"
  shows "unat ((i + 1) * b) = (unat i + 1) * unat b"
proof -
  have "1 \<le> unat b" using assms(2) by (simp add: unat_gt_0 Suc_leI)
  then have "(unat i + 1) * 1 \<le> (unat i + 1) * unat b" by (rule mult_le_mono2)
  then have "unat i + 1 \<le> (unat i + 1) * unat b" by simp
  then have "unat i + 1 < 2 ^ LENGTH('a)" using assms(1) by linarith
  then have "unat (i + 1) = unat i + 1"
    by (metis unat_1 unat_add_lem)
  then have s: "unat (i + 1) = unat i + 1"
    by (metis unat_1 unat_add_lem)
  have "unat (i + 1) * unat b < 2 ^ LENGTH('a)" using assms(1) by (simp only: s)
  then have "unat ((i + 1) * b) = unat (i + 1) * unat b"
    by (simp only: unat_mult_lem)
  then show ?thesis by (simp only: s)
qed

lemma chunk_bounds_unat:
  fixes n b i k :: "'a::len word"
  assumes b: "b \<noteq> 0" and nowrap: "unat n + unat b - 1 < 2 ^ LENGTH('a)"
    and k: "unat k = (unat n + unat b - 1) div unat b" and i: "i < k"
  shows "unat (fst (chunk_bounds i n b)) = unat i * unat b"
    and "unat (snd (chunk_bounds i n b)) = min (unat n) ((unat i + 1) * unat b)"
proof -
  have B: "0 < unat b" using b by (simp add: unat_gt_0)
  have "unat i < (unat n + unat b - 1) div unat b"
    using i k by (simp add: word_less_nat_alt)
  then have lt: "unat i * unat b < unat n" using ceil_lt_iff [OF B] by simp
  then have "(unat i + 1) * unat b < unat n + unat b" by simp
  then have hi: "(unat i + 1) * unat b < 2 ^ LENGTH('a)" using nowrap B by linarith
  have lo: "unat i * unat b < 2 ^ LENGTH('a)"
    using lt unsigned_less [of n] by (rule less_trans)
  show "unat (fst (chunk_bounds i n b)) = unat i * unat b"
    using unat_chunk_mult [OF lo] by (simp add: chunk_bounds_def)
  have "unat (min n ((i + 1) * b)) = min (unat n) (unat ((i + 1) * b))"
    by (simp add: min_def word_le_nat_alt)
  then show "unat (snd (chunk_bounds i n b)) = min (unat n) ((unat i + 1) * unat b)"
    using unat_chunk_succ_mult [OF hi b] by (simp add: chunk_bounds_def)
qed

lemma chunk_mem_iff:
  fixes n b i k v :: "'a::len word"
  assumes b: "b \<noteq> 0" and nowrap: "unat n + unat b - 1 < 2 ^ LENGTH('a)"
    and k: "unat k = (unat n + unat b - 1) div unat b" and i: "i < k"
  shows "v \<in> chunk i n b \<longleftrightarrow> v < n \<and> unat i = unat v div unat b"
proof -
  have B: "0 < unat b" using b by (simp add: unat_gt_0)
  have "v \<in> chunk i n b \<longleftrightarrow>
          unat i * unat b \<le> unat v \<and> unat v < min (unat n) ((unat i + 1) * unat b)"
    using chunk_bounds_unat [OF b nowrap k i]
    by (simp add: chunk_def word_le_nat_alt word_less_nat_alt)
  also have "\<dots> \<longleftrightarrow> unat v < unat n \<and> (unat i * unat b \<le> unat v \<and> unat v < (unat i + 1) * unat b)"
    by auto
  also have "\<dots> \<longleftrightarrow> v < n \<and> unat i = unat v div unat b"
    by (simp only: in_block_iff [OF B] word_less_nat_alt)
  finally show ?thesis .
qed

text \<open>
  Claim C10, as the code has it. With a chunk size of at least one, and as long as the sum
  \<open>n + b - 1\<close> of \<open>idiv_ceil\<close> does not wrap around, the chunks
  \<open>0 .. idiv_ceil n b - 1\<close> are the intervals \<open>[i * b, min n ((i + 1) * b))\<close>, they
  are pairwise disjoint and their union is \<open>[0, n)\<close>.
\<close>

theorem chunks_partition_no_wrap:
  fixes n b :: "'a::len word"
  assumes b: "1 \<le> b" and nowrap: "unat n + unat b - 1 < 2 ^ LENGTH('a)"
  shows "chunks_partition n b"
proof -
  have b0: "b \<noteq> 0" using b by (auto simp: word_le_nat_alt)
  have B: "0 < unat b" using b0 by (simp add: unat_gt_0)
  obtain k where kdef: "idiv_ceil n b = Some k"
    and k: "unat k = (unat n + unat b - 1) div unat b"
    using unat_idiv_ceil [OF b0 nowrap] by blast
  have bounds: "\<forall>i<k. unat (fst (chunk_bounds i n b)) = unat i * unat b
                \<and> unat (snd (chunk_bounds i n b)) = min (unat n) ((unat i + 1) * unat b)"
    using chunk_bounds_unat [OF b0 nowrap k] by blast
  have disj: "\<forall>i<k. \<forall>j<k. i \<noteq> j \<longrightarrow> chunk i n b \<inter> chunk j n b = {}"
  proof (intro allI impI)
    fix i j assume ij: "i < k" "j < k" "i \<noteq> j"
    show "chunk i n b \<inter> chunk j n b = {}"
    proof (rule ccontr)
      assume "chunk i n b \<inter> chunk j n b \<noteq> {}"
      then obtain v where "v \<in> chunk i n b" "v \<in> chunk j n b" by blast
      then have "unat i = unat j"
        using chunk_mem_iff [OF b0 nowrap k] ij by simp
      then show False using ij(3) by (simp add: word_unat_eq_iff)
    qed
  qed
  have cover: "(\<Union>i\<in>{i. i < k}. chunk i n b) = {v. v < n}"
  proof (intro set_eqI iffI)
    fix v assume "v \<in> (\<Union>i\<in>{i. i < k}. chunk i n b)"
    then show "v \<in> {v. v < n}" using chunk_mem_iff [OF b0 nowrap k] by auto
  next
    fix v assume "v \<in> {v. v < n}"
    then have vn: "v < n" by simp
    define i :: "'a word" where "i = of_nat (unat v div unat b)"
    have "unat v div unat b \<le> unat v" by simp
    then have small: "unat v div unat b < 2 ^ LENGTH('a)"
      using unsigned_less [of v] by (rule le_less_trans)
    then have ui: "unat i = unat v div unat b" by (simp add: i_def unat_of_nat)
    have "unat i * unat b \<le> unat v" by (simp add: ui)
    also have "\<dots> < unat n" using vn by (simp add: word_less_nat_alt)
    finally have "unat i < (unat n + unat b - 1) div unat b" using ceil_lt_iff [OF B] by simp
    then have ik: "i < k" using k by (simp add: word_less_nat_alt)
    then have "v \<in> chunk i n b" using chunk_mem_iff [OF b0 nowrap k ik] vn ui by simp
    then show "v \<in> (\<Union>i\<in>{i. i < k}. chunk i n b)" using ik by blast
  qed
  show ?thesis
    unfolding chunks_partition_def kdef using bounds disj cover by simp
qed

theorem chunks_partition_no_wrap_witness:
  "(1::64 word) \<le> 3 \<and> unat (10::64 word) + unat (3::64 word) - 1 < 2 ^ LENGTH(64)
   \<and> chunks_partition (10::64 word) 3"
  using chunks_partition_no_wrap [of "3::64 word" "10::64 word"] by simp

text \<open>
  Without that bound the property fails: for \<open>n = 2^64 - 1\<close> and \<open>b = 2\<close> in 64 bits
  the sum wraps to zero, \<open>idiv_ceil\<close> returns no chunk at all, and no node is covered.
\<close>

theorem chunks_partition_wrap_counterexample:
  "(1::64 word) \<le> 2 \<and> \<not> chunks_partition (0xFFFFFFFFFFFFFFFF::64 word) 2"
  by (simp add: chunks_partition_def idiv_ceil_def) (rule exI [of _ 0], simp)


section \<open>Theorems: local moving\<close>

subsection \<open>Targets of an accepted move\<close>

lemma addClusterWeight_keys:
  "fst ` set (addClusterWeight c w acc) = insert c (fst ` set acc)"
proof (cases "map_of acc c")
  case None
  then show ?thesis by (simp add: addClusterWeight_def)
next
  case (Some x)
  then have "(c, x) \<in> set acc" by (rule map_of_SomeD)
  then have "c \<in> fst ` set acc" by force
  moreover have "fst ` set (map (\<lambda>(k, y). if k = c then (k, y + w) else (k, y)) acc) = fst ` set acc"
    by (force simp: image_iff split: if_splits)
  ultimately show ?thesis using Some by (auto simp: addClusterWeight_def)
qed

lemma subset_widen: "X \<subseteq> K \<union> S \<Longrightarrow> S \<subseteq> S' \<Longrightarrow> X \<subseteq> K \<union> S'"
  by blast

lemma subset_widen_insert:
  "X \<subseteq> insert z K \<union> S \<Longrightarrow> S \<subseteq> S' \<Longrightarrow> z \<in> S' \<Longrightarrow> X \<subseteq> K \<union> S'"
  by blast

lemma fold_accumulate_keys:
  "fst ` set (fold (\<lambda>(v, w) acc. if v = u then acc else addClusterWeight (zeta ! v) w acc) xs acc0)
     \<subseteq> fst ` set acc0 \<union> {zeta ! v | v. v \<in> fst ` set xs \<and> v \<noteq> u}"
proof (induction xs arbitrary: acc0)
  case Nil
  then show ?case by simp
next
  case (Cons p xs)
  obtain v w where p: "p = (v, w)" by (cases p)
  let ?F = "\<lambda>(v, w) acc. if v = u then acc else addClusterWeight (zeta ! v) w acc"
  let ?S = "\<lambda>ys. {zeta ! v | v. v \<in> fst ` set ys \<and> v \<noteq> u}"
  have mono: "?S xs \<subseteq> ?S (p # xs)" by auto
  show ?case
  proof (cases "v = u")
    case True
    then have eq: "fold ?F (p # xs) acc0 = fold ?F xs acc0" using p by simp
    have "fst ` set (fold ?F xs acc0) \<subseteq> fst ` set acc0 \<union> ?S xs"
      by (rule Cons.IH)
    then have "fst ` set (fold ?F xs acc0) \<subseteq> fst ` set acc0 \<union> ?S (p # xs)"
      using mono by (rule subset_widen)
    then show ?thesis by (simp only: eq)
  next
    case False
    then have eq: "fold ?F (p # xs) acc0 = fold ?F xs (addClusterWeight (zeta ! v) w acc0)"
      using p by simp
    have sub: "fst ` set (fold ?F xs (addClusterWeight (zeta ! v) w acc0))
        \<subseteq> insert (zeta ! v) (fst ` set acc0) \<union> ?S xs"
      using Cons.IH [of "addClusterWeight (zeta ! v) w acc0"]
      by (simp only: addClusterWeight_keys)
    have mem: "zeta ! v \<in> ?S (p # xs)" using False p by auto
    have "fst ` set (fold ?F xs (addClusterWeight (zeta ! v) w acc0))
        \<subseteq> fst ` set acc0 \<union> ?S (p # xs)"
      using sub mono mem by (rule subset_widen_insert)
    then show ?thesis by (simp only: eq)
  qed
qed

lemma neighborClusterWeights_keys:
  "fst ` set (neighborClusterWeights g zeta u)
     \<subseteq> {zeta ! v | v. v \<in> fst ` set (neighbors g u) \<and> v \<noteq> u}"
  using fold_accumulate_keys [of u zeta "neighbors g u" "[]"]
  by (simp add: neighborClusterWeights_def)

lemma bestTarget_in:
  "fst (bestTarget f cands start) \<in> insert (fst start) (fst ` set cands)"
  unfolding bestTarget_def
proof (induction cands arbitrary: start)
  case Nil
  then show ?case by simp
next
  case (Cons p cands)
  obtain c w where p: "p = (c, w)" by (cases p)
  obtain bc bw bf where s: "start = (bc, bw, bf)" by (cases start)
  show ?case
    using Cons.IH [of "(c, w, f c w)"] Cons.IH [of "(bc, bw, bf)"] p s
    by (auto split: if_splits)
qed

lemma tryLocalMove_Some:
  assumes "tryLocalMove fitnessChange eps g view u = Some m"
  shows "movedNode m = u \<and> originCluster m = result view ! u
       \<and> targetCluster m \<in> {result view ! v | v. v \<in> fst ` set (neighbors g u) \<and> v \<noteq> u}"
proof -
  let ?cur = "result view ! u"
  let ?ws = "neighborClusterWeights g (result view) u"
  let ?wc = "case map_of ?ws ?cur of None \<Rightarrow> 0 | Some w \<Rightarrow> w"
  let ?f = "\<lambda>c w. fitnessChange view u (weightedDegree g u) (selfLoopWeight g u) ?cur c w ?wc
                     (totalCut view)"
  let ?cands = "filter (\<lambda>(c, w). c \<noteq> ?cur) ?ws"
  let ?best = "bestTarget ?f ?cands (?cur, ?wc, ?f ?cur ?wc)"
  obtain t wt b where best: "?best = (t, wt, b)" by (cases ?best)
  have "tryLocalMove fitnessChange eps g view u =
      (if t \<noteq> ?cur \<and> b + eps < ?f ?cur ?wc
       then Some \<lparr>movedNode = u, volume = weightedDegree g u + 2 * selfLoopWeight g u,
                   originCluster = ?cur, targetCluster = t,
                   cutUpdateToOriginCluster = 2 * ?wc - weightedDegree g u,
                   cutUpdateToTargetCluster = weightedDegree g u - 2 * wt\<rparr>
       else None)"
    using best by (simp add: tryLocalMove_def Let_def)
  with assms have acc: "t \<noteq> ?cur" and m: "movedNode m = u" "originCluster m = ?cur"
      "targetCluster m = t"
    by (auto split: if_splits)
  have "fst ?best \<in> insert (fst (?cur, ?wc, ?f ?cur ?wc)) (fst ` set ?cands)"
    by (rule bestTarget_in)
  then have "t \<in> insert ?cur (fst ` set ?cands)" by (simp add: best)
  with acc have "t \<in> fst ` set ?ws" by auto
  then have "t \<in> {result view ! v | v. v \<in> fst ` set (neighbors g u) \<and> v \<noteq> u}"
    using neighborClusterWeights_keys [of g "result view" u] by blast
  then show ?thesis using m by simp
qed

lemma tryLocalMove_isolated:
  assumes "neighbors g u = []"
  shows "tryLocalMove fitnessChange eps g view u = None"
proof (cases "tryLocalMove fitnessChange eps g view u")
  case None
  then show ?thesis .
next
  case (Some m)
  from tryLocalMove_Some [OF Some] assms show ?thesis by simp
qed

lemma accepted_move_avoids:
  assumes und: "undirected g" and iso: "neighbors g u = []"
    and view: "ownSingleton g u (result view)"
    and some: "tryLocalMove fitnessChange eps g view v = Some m"
  shows "movedNode m \<noteq> u \<and> targetCluster m \<noteq> u"
proof -
  have vu: "v \<noteq> u" using some tryLocalMove_isolated [OF iso] by auto
  from tryLocalMove_Some [OF some] obtain w where
    m: "movedNode m = v" and t: "targetCluster m = result view ! w"
    and w: "w \<in> fst ` set (neighbors g v)" "w \<noteq> v"
    by auto
  from w(1) obtain x where wx: "(w, x) \<in> set (neighbors g v)" by auto
  with und have wn: "w < numberOfNodes g" and rev: "v \<in> fst ` set (neighbors g w)"
    by (auto simp: undirected_def)
  have "w \<noteq> u" using rev iso by auto
  with wn view have "result view ! w \<noteq> u" by (simp add: ownSingleton_def)
  then show ?thesis using m t vu by simp
qed

lemma ownSingleton_update:
  assumes "ownSingleton g u zeta" "v \<noteq> u" "t \<noteq> u"
  shows "ownSingleton g u (zeta[v := t])"
proof -
  have len: "length zeta = numberOfNodes g" and own: "\<forall>x<numberOfNodes g. zeta ! x = u \<longleftrightarrow> x = u"
    using assms(1) by (simp_all add: ownSingleton_def)
  have "(zeta[v := t]) ! x = u \<longleftrightarrow> x = u" if x: "x < numberOfNodes g" for x
  proof (cases "x = v")
    case True
    then show ?thesis using assms(2,3) x len by simp
  next
    case False
    then show ?thesis using own x by simp
  qed
  then show ?thesis using len by (simp add: ownSingleton_def)
qed

lemma result_applyMove [simp]: "result (applyMove m st) = result st"
  by (simp add: applyMove_def Let_def)

lemma result_performMove [simp]:
  "result (performMove m st) = (result st)[movedNode m := targetCluster m]"
  by (simp add: performMove_def)

lemma result_aggregate [simp]:
  "result (aggregateAndApplyCutAndVolumeUpdates ms st) = result st"
  by (simp add: aggregateAndApplyCutAndVolumeUpdates_def)

lemma localMoving_fold_own:
  assumes und: "undirected g" and iso: "neighbors g u = []"
  shows "ownSingleton g u (result (fst acc)) \<Longrightarrow>
     ownSingleton g u (result (fst (fold (\<lambda>v (s, moved).
             case tryLocalMove fitnessChange eps g s v of
               None \<Rightarrow> (s, moved)
             | Some m \<Rightarrow> (performMove m s, Suc moved)) nodes acc)))"
proof (induction nodes arbitrary: acc)
  case Nil
  then show ?case by simp
next
  case (Cons v nodes)
  obtain s moved where acc: "acc = (s, moved)" by (cases acc)
  with Cons.prems have own: "ownSingleton g u (result s)" by simp
  show ?case
  proof (cases "tryLocalMove fitnessChange eps g s v")
    case None
    then show ?thesis using Cons.IH [of "(s, moved)"] own acc by simp
  next
    case (Some m)
    from accepted_move_avoids [OF und iso own Some]
    have "ownSingleton g u (result (performMove m s))"
      using own by (simp add: ownSingleton_update)
    then show ?thesis using Cons.IH [of "(performMove m s, Suc moved)"] Some acc by simp
  qed
qed

lemma localMoving_own:
  assumes "undirected g" "neighbors g u = []" "ownSingleton g u (result st)"
  shows "ownSingleton g u (result (fst (localMoving fitnessChange eps g nodes st)))"
  unfolding localMoving_def
  using localMoving_fold_own [OF assms(1,2), of "(st, 0)"] assms(3) by simp

lemma relaxMapMoves_own:
  assumes und: "undirected g" and iso: "neighbors g u = []"
  shows "ownSingleton g u (result st) \<Longrightarrow> \<forall>s \<in> set older. ownSingleton g u (result s) \<Longrightarrow>
     ownSingleton g u (result (fst (relaxMapMoves fitnessChange eps g sched st older moved)))"
proof (induction sched arbitrary: st older moved)
  case Nil
  then show ?case by simp
next
  case (Cons p sched)
  obtain v lag where p: "p = (v, lag)" by (cases p)
  let ?view = "(st # older) ! min lag (length older)"
  have "?view \<in> set (st # older)" by (rule nth_mem) simp
  then have view: "ownSingleton g u (result ?view)" using Cons.prems by auto
  show ?case
  proof (cases "tryLocalMove fitnessChange eps g ?view v")
    case None
    then show ?thesis using Cons.IH [OF Cons.prems] p by (simp add: Let_def)
  next
    case (Some m)
    from accepted_move_avoids [OF und iso view Some]
    have "ownSingleton g u (result (performMove m st))"
      using Cons.prems(1) by (simp add: ownSingleton_update)
    moreover have "\<forall>s \<in> set (st # older). ownSingleton g u (result s)"
      using Cons.prems by simp
    ultimately have "ownSingleton g u (result (fst (relaxMapMoves fitnessChange eps g sched
        (performMove m st) (st # older) (Suc moved))))"
      by (rule Cons.IH)
    then show ?thesis using Some p by (simp add: Let_def)
  qed
qed

lemma relaxMapLocalMoving_own:
  assumes "undirected g" "neighbors g u = []" "ownSingleton g u (result st)"
  shows "ownSingleton g u (result (fst (relaxMapLocalMoving fitnessChange eps g sched st)))"
  unfolding relaxMapLocalMoving_def
  using relaxMapMoves_own [OF assms(1,2) assms(3), of "[]"] by simp

lemma fold_update_own:
  "\<forall>m \<in> set ms. movedNode m \<noteq> u \<and> targetCluster m \<noteq> u \<Longrightarrow> ownSingleton g u zeta \<Longrightarrow>
     ownSingleton g u (fold (\<lambda>m zeta. zeta[movedNode m := targetCluster m]) ms zeta)"
  by (induction ms arbitrary: zeta) (simp_all add: ownSingleton_update)

lemma workerMoves_accepted:
  assumes "m \<in> set (concat (workerMoves fitnessChange eps g frozen chunks))"
  shows "\<exists>v. tryLocalMove fitnessChange eps g frozen v = Some m"
  using assms by (auto simp: workerMoves_def List.map_filter_def)

lemma synchronousLocalMoving_own:
  assumes und: "undirected g" and iso: "neighbors g u = []" and own: "ownSingleton g u (result st)"
  shows "ownSingleton g u (result (fst (synchronousLocalMoving fitnessChange eps g chunks st)))"
proof -
  let ?moves = "concat (workerMoves fitnessChange eps g st chunks)"
  have "\<forall>m \<in> set ?moves. movedNode m \<noteq> u \<and> targetCluster m \<noteq> u"
  proof
    fix m assume "m \<in> set ?moves"
    then obtain v where "tryLocalMove fitnessChange eps g st v = Some m"
      using workerMoves_accepted by blast
    then show "movedNode m \<noteq> u \<and> targetCluster m \<noteq> u"
      by (rule accepted_move_avoids [OF und iso own])
  qed
  then have "ownSingleton g u (fold (\<lambda>m zeta. zeta[movedNode m := targetCluster m]) ?moves (result st))"
    using own by (rule fold_update_own)
  then show ?thesis by (simp add: synchronousLocalMoving_def Let_def)
qed

lemma localMovingPass_own:
  assumes "undirected g" "neighbors g u = []" "ownSingleton g u (result st)"
  shows "ownSingleton g u (result (fst (localMovingPass t fitnessChange eps g sched i st)))"
  using localMoving_own [OF assms] relaxMapLocalMoving_own [OF assms]
    synchronousLocalMoving_own [OF assms]
  by (cases t) (simp_all add: localMovingPass_def)

lemma initial_own:
  "ownSingleton g u (result (calculateInitialClusterCutAndVolume g))"
  by (simp add: ownSingleton_def calculateInitialClusterCutAndVolume_def Let_def)

subsection \<open>Isolated nodes\<close>

text \<open>
  Claim C5. In an undirected graph let \<open>u\<close> be a node of degree zero (no neighbour is
  iterated for it; its self-loop weight plays no part). Then no evaluation of \<open>u\<close> accepts
  a move, whatever statistics it reads, and after any number of passes of any of the three
  strategies, with any fitness function, tolerance and schedule, \<open>u\<close> is the only node of
  the cluster named \<open>u\<close>.
\<close>

theorem isolated_node_stays_singleton:
  assumes "undirected g" and "u < numberOfNodes g" and "neighbors g u = []"
  shows "(\<forall>view. tryLocalMove fitnessChange eps g view u = None)
       \<and> ownSingleton g u
           (result (stateAfter (localMovingPass t fitnessChange eps g sched)
                      (calculateInitialClusterCutAndVolume g) k))"
proof
  show "\<forall>view. tryLocalMove fitnessChange eps g view u = None"
    using tryLocalMove_isolated [OF assms(3)] by blast
  show "ownSingleton g u
           (result (stateAfter (localMovingPass t fitnessChange eps g sched)
                      (calculateInitialClusterCutAndVolume g) k))"
  proof (induction k)
    case 0
    show ?case by (simp add: initial_own)
  next
    case (Suc k)
    then show ?case using localMovingPass_own [OF assms(1,3)] by simp
  qed
qed

theorem isolated_node_stays_singleton_witness:
  "undirected exampleGraph \<and> (2::nat) < numberOfNodes exampleGraph
   \<and> neighbors exampleGraph 2 = []
   \<and> tryLocalMove exampleFitness 0 exampleGraph (calculateInitialClusterCutAndVolume exampleGraph) 2
       = None
   \<and> result (stateAfter (localMovingPass RelaxMap exampleFitness 0 exampleGraph exampleSchedule)
               (calculateInitialClusterCutAndVolume exampleGraph) 5) ! 2 = 2
   \<and> result (stateAfter (localMovingPass RelaxMap exampleFitness 0 exampleGraph exampleSchedule)
               (calculateInitialClusterCutAndVolume exampleGraph) 5) ! 0 \<noteq> 2"
proof -
  have h: "undirected exampleGraph" "(2::nat) < numberOfNodes exampleGraph"
    "neighbors exampleGraph 2 = []"
    by (simp_all add: undirected_def exampleGraph_def)
  from isolated_node_stays_singleton [OF h, of exampleFitness 0 RelaxMap exampleSchedule 5]
  show ?thesis using h by (simp add: ownSingleton_def exampleGraph_def)
qed

section \<open>Theorems: the loop over passes\<close>

lemma moveLoop_from:
  assumes "st = stateAfter pass st0 it" "it \<le> maxIter"
    and "moveLoop pass maxIter it st = (st', k)"
  shows "it \<le> k \<and> k \<le> maxIter \<and> st' = stateAfter pass st0 k
       \<and> (\<forall>j. it \<le> j \<and> Suc j < k \<longrightarrow> 0 < movedIn pass st0 j)
       \<and> (k = maxIter \<or> (it < k \<and> movedIn pass st0 (k - 1) = 0))"
  using assms
proof (induction pass maxIter it st rule: moveLoop.induct)
  case (1 pass maxIter it st)
  show ?case
  proof (cases "it < maxIter")
    case False
    then have "moveLoop pass maxIter it st = (st, it)"
      by (simp add: moveLoop.simps [of pass maxIter it st])
    with "1.prems"(3) have "st' = st" "k = it" by simp_all
    moreover have "it = maxIter" using False "1.prems"(2) by simp
    ultimately show ?thesis using "1.prems"(1) by simp
  next
    case True
    obtain s1 moved where p: "pass it st = (s1, moved)" by (cases "pass it st")
    have s1: "s1 = stateAfter pass st0 (Suc it)" using p "1.prems"(1) by simp
    have mv: "movedIn pass st0 it = moved" using p "1.prems"(1) by (simp add: movedIn_def)
    show ?thesis
    proof (cases "0 < moved")
      case False
      then have "moveLoop pass maxIter it st = (s1, Suc it)"
        using True p by (simp add: moveLoop.simps [of pass maxIter it st])
      with "1.prems"(3) have "st' = s1" "k = Suc it" by simp_all
      then show ?thesis using True s1 mv False by auto
    next
      case pos: True
      then have "moveLoop pass maxIter it st = moveLoop pass maxIter (Suc it) s1"
        using True p by (simp add: moveLoop.simps [of pass maxIter it st])
      with "1.prems"(3) have run: "moveLoop pass maxIter (Suc it) s1 = (st', k)" by simp
      have ih: "Suc it \<le> k \<and> k \<le> maxIter \<and> st' = stateAfter pass st0 k
         \<and> (\<forall>j. Suc it \<le> j \<and> Suc j < k \<longrightarrow> 0 < movedIn pass st0 j)
         \<and> (k = maxIter \<or> (Suc it < k \<and> movedIn pass st0 (k - 1) = 0))"
        using "1.IH" [OF True p [symmetric] pos s1 _ run] True by simp
      have "\<forall>j. it \<le> j \<and> Suc j < k \<longrightarrow> 0 < movedIn pass st0 j"
      proof (intro allI impI)
        fix j assume j: "it \<le> j \<and> Suc j < k"
        show "0 < movedIn pass st0 j"
        proof (cases "j = it")
          case True
          then show ?thesis using mv pos by simp
        next
          case False
          then have "Suc it \<le> j" using j by simp
          then show ?thesis using ih j by blast
        qed
      qed
      then show ?thesis using ih by auto
    qed
  qed
qed

text \<open>
  Claim C6. The loop over passes is a total function: its recursion is bounded by
  \<open>maxIter - iteration\<close>, and a pass is a fold over a finite list. Started at pass 0 it
  returns after \<open>k\<close> completed passes, where \<open>k\<close> is at most the cap, every pass before
  the last one moved a node, and either \<open>k\<close> is the cap or the last pass moved no node.
  So it stops at the first quiescent pass or at the cap, whichever comes first, and for no
  other reason.
\<close>

theorem local_moving_engine_stops:
  "\<exists>st' k. moveLoop (localMovingPass t fitnessChange eps g sched) maxIter 0 st = (st', k)
     \<and> k \<le> maxIter
     \<and> st' = stateAfter (localMovingPass t fitnessChange eps g sched) st k
     \<and> (\<forall>j. Suc j < k \<longrightarrow> 0 < movedIn (localMovingPass t fitnessChange eps g sched) st j)
     \<and> (k = maxIter
          \<or> (0 < k \<and> movedIn (localMovingPass t fitnessChange eps g sched) st (k - 1) = 0))"
proof -
  let ?pass = "localMovingPass t fitnessChange eps g sched"
  obtain st' k where r: "moveLoop ?pass maxIter 0 st = (st', k)"
    by (cases "moveLoop ?pass maxIter 0 st")
  from moveLoop_from [of st ?pass st 0 maxIter st' k] r
  show ?thesis by simp
qed

lemmas example_defs =
  exampleGraph_def exampleFitness_def exampleSchedule_def
  calculateInitialClusterCutAndVolume_def

lemmas engine_defs =
  localMovingPass_def localMoving_def relaxMapLocalMoving_def synchronousLocalMoving_def
  workerMoves_def tryLocalMove_def neighborClusterWeights_def addClusterWeight_def
  bestTarget_def performMove_def applyMove_def aggregateAndApplyCutAndVolumeUpdates_def
  cutDelta_def volumeDelta_def Let_def

lemma example_pass0:
  "localMovingPass NoneT exampleFitness 0 exampleGraph exampleSchedule 0
     (calculateInitialClusterCutAndVolume exampleGraph)
   = (\<lparr>result = [1, 1, 2], clusterCut = [0, 0, 0], clusterVolume = [0, 12, 0],
        totalCut = 0, totalVolume = 12\<rparr>, 1)"
  by (simp add: example_defs engine_defs upt_rec)

lemma example_pass1:
  "localMovingPass NoneT exampleFitness 0 exampleGraph exampleSchedule i
     \<lparr>result = [1, 1, 2], clusterCut = [0, 0, 0], clusterVolume = [0, 12, 0],
        totalCut = 0, totalVolume = 12\<rparr>
   = (\<lparr>result = [1, 1, 2], clusterCut = [0, 0, 0], clusterVolume = [0, 12, 0],
        totalCut = 0, totalVolume = 12\<rparr>, 0)"
  by (simp add: example_defs engine_defs)

lemma example_undirected: "undirected exampleGraph"
  by (simp add: undirected_def exampleGraph_def)

theorem local_moving_engine_stops_witness:
  "snd (moveLoop (localMovingPass NoneT exampleFitness 0 exampleGraph exampleSchedule) 32 0
          (calculateInitialClusterCutAndVolume exampleGraph)) = 2
   \<and> 0 < movedIn (localMovingPass NoneT exampleFitness 0 exampleGraph exampleSchedule)
            (calculateInitialClusterCutAndVolume exampleGraph) 0
   \<and> movedIn (localMovingPass NoneT exampleFitness 0 exampleGraph exampleSchedule)
            (calculateInitialClusterCutAndVolume exampleGraph) 1 = 0"
proof -
  let ?P = "localMovingPass NoneT exampleFitness 0 exampleGraph exampleSchedule"
  let ?S = "calculateInitialClusterCutAndVolume exampleGraph"
  have m0: "movedIn ?P ?S 0 = 1" by (simp add: movedIn_def example_pass0)
  have s1: "stateAfter ?P ?S (Suc 0)
      = \<lparr>result = [1, 1, 2], clusterCut = [0, 0, 0], clusterVolume = [0, 12, 0],
         totalCut = 0, totalVolume = 12\<rparr>"
    by (simp only: stateAfter.simps example_pass0 fst_conv)
  have "movedIn ?P ?S (Suc 0) = 0"
    by (simp only: movedIn_def s1 example_pass1 snd_conv)
  then have m1: "movedIn ?P ?S 1 = 0" by (simp only: One_nat_def)
  from local_moving_engine_stops [of NoneT exampleFitness 0 exampleGraph exampleSchedule 32 ?S]
  obtain st' k where r: "moveLoop ?P 32 0 ?S = (st', k)"
    and quiet: "\<forall>j. Suc j < k \<longrightarrow> 0 < movedIn ?P ?S j"
    and last: "k = 32 \<or> (0 < k \<and> movedIn ?P ?S (k - 1) = 0)"
    by blast
  have "\<not> Suc 1 < k" using quiet m1 by force
  then have k2: "k \<le> 2" by simp
  with last have "0 < k" "movedIn ?P ?S (k - 1) = 0" by simp_all
  with m0 have "k \<noteq> 1" by auto
  with k2 \<open>0 < k\<close> have "k = 2" by simp
  with r m0 m1 show ?thesis by simp
qed

subsection \<open>No pass at all\<close>

lemma moveLoop_zero: "moveLoop pass 0 0 st = (st, 0)"
  by (simp add: moveLoop.simps [of pass 0 0 st])

text \<open>
  Claim C4. With \<open>maxIterations = 0\<close> the run returns the singleton partition, in which
  node \<open>x\<close> is in cluster \<open>x\<close>, for each of the three parallelization types, with or
  without the hierarchical mode.
\<close>

theorem run_zero_iterations:
  assumes "maxIterations obj = 0"
  shows "run fitnessChange eps sched runHierarchical obj = [0 ..< numberOfNodes (G obj)]"
  using assms
  by (simp add: run_def Let_def moveLoop_zero calculateInitialClusterCutAndVolume_def)

theorem run_zero_iterations_witness:
  "maxIterations \<lparr>G = exampleGraph, hierarchical = True, maxIterations = 0 :: 64 word,
                  parallelizationType = Synchronous\<rparr> = 0
   \<and> run exampleFitness 0 exampleSchedule (\<lambda>st. [])
         \<lparr>G = exampleGraph, hierarchical = True, maxIterations = 0 :: 64 word,
          parallelizationType = Synchronous\<rparr> = [0, 1, 2]"
  using run_zero_iterations [of "\<lparr>G = exampleGraph, hierarchical = True,
      maxIterations = 0 :: 64 word, parallelizationType = Synchronous\<rparr>"
      exampleFitness 0 exampleSchedule "\<lambda>st. []"]
  by (simp add: exampleGraph_def upt_rec)

end
